theory Spec2Isabelle
  imports Main
begin

section \<open>JavaScript values read and written by ValidatedForm.tsx\<close>

text \<open>
  A \<open>FieldErrors\<close> or \<open>TouchedFields\<close> value is a plain JavaScript object: its own
  enumerable properties, in the order they were inserted. \<open>FormData\<close> is the ordered
  multi-map the browser builds from a form.

  React compares states with \<open>Object.is\<close>, which on objects is identity, so an object
  is modelled as its identity \<open>ref\<close> together with its own properties \<open>props\<close>. The
  component never mutates an object after creating it (it always copies), which is why
  the properties can travel with the identity. A new object takes the next free
  identity, which the component state carries as \<open>nextRef\<close>.
\<close>

type_synonym FieldErrors = "(string \<times> string) list"
type_synonym TouchedFields = "(string \<times> bool) list"
type_synonym FormData = "(string \<times> string) list"

datatype 'a obj = Obj (ref: nat) (props: 'a)

definition Object_is :: "'a obj \<Rightarrow> 'a obj \<Rightarrow> bool" where
  "Object_is a b = (ref a = ref b)"

definition Object_keys :: "('k \<times> 'v) list \<Rightarrow> 'k list" where
  "Object_keys ps = map fst ps"

text \<open>
  \<open>{...prev, [k]: v}\<close>: the copy keeps the order of \<open>prev\<close>; an own key \<open>k\<close> keeps its
  place and takes the new value, a new key goes last.
\<close>

fun spread_with :: "('k \<times> 'v) list \<Rightarrow> 'k \<Rightarrow> 'v \<Rightarrow> ('k \<times> 'v) list" where
  "spread_with [] k v = [(k, v)]"
| "spread_with (p # ps) k v = (if fst p = k then (k, v) # ps else p # spread_with ps k v)"

text \<open>
  \<open>prev[k] === error\<close> with \<open>error\<close> a string: true exactly when \<open>prev\<close> has the own
  property \<open>k\<close> holding that string (what \<open>Object.prototype\<close> holds under a name is
  never a string, and an own property shadows it).
\<close>

definition get_own :: "FieldErrors \<Rightarrow> string \<Rightarrow> string option" where
  "get_own ps k = map_of ps k"

text \<open>
  \<open>k in prev\<close> follows the prototype chain: every object here is an ordinary object (a
  literal, a copy of one, or parsed JSON), whose prototype \<open>Object.prototype\<close> has the
  members below.
\<close>

definition Object_prototype_keys :: "string list" where
  "Object_prototype_keys =
     [''constructor'', ''__defineGetter__'', ''__defineSetter__'', ''hasOwnProperty'',
      ''__lookupGetter__'', ''__lookupSetter__'', ''isPrototypeOf'',
      ''propertyIsEnumerable'', ''toString'', ''valueOf'', ''__proto__'',
      ''toLocaleString'']"

definition js_in :: "string \<Rightarrow> FieldErrors \<Rightarrow> bool" where
  "js_in k ps = (k \<in> set (Object_keys ps) \<or> k \<in> set Object_prototype_keys)"

text \<open>
  Truthiness of a value of type \<open>string | undefined\<close> (or \<open>string | null\<close>): the empty
  string is falsy, as \<open>undefined\<close> and \<open>null\<close> are.
\<close>

definition truthy :: "string option \<Rightarrow> bool" where
  "truthy v = (case v of None \<Rightarrow> False | Some s \<Rightarrow> s \<noteq> [])"

datatype js_error = InvariantFailed | TypeError | SyntaxError

section \<open>The component's state and React's setters\<close>

text \<open>
  \<open>useState\<close> cells of \<open>ValidatedForm\<close> (lines 93, 203, 204). \<open>stateChanges\<close> counts
  the updates React did not bail out of: a setter whose new state is \<open>Object.is\<close> the
  current one schedules nothing (the state is that same object, before and after).
\<close>

record form_state =
  fieldErrors :: "FieldErrors obj"
  touchedFields :: "TouchedFields obj"
  hasBeenSubmitted :: bool
  nextRef :: nat
  stateChanges :: nat

text \<open>
  The argument of a setter, as a function of the previous state and the next free
  identity: \<open>setX(v)\<close> is \<open>given v\<close>, \<open>setX({...})\<close> with an object literal is
  \<open>new_object\<close>, \<open>setX((prev) => ...)\<close> is the function itself.
\<close>

type_synonym 'a updater = "'a \<Rightarrow> nat \<Rightarrow> 'a \<times> nat"

definition given :: "'a \<Rightarrow> 'a updater" where
  "given v = (\<lambda>prev n. (v, n))"

definition new_object :: "'a \<Rightarrow> 'a obj updater" where
  "new_object ps = (\<lambda>prev n. (Obj n ps, Suc n))"

definition setFieldErrors :: "FieldErrors obj updater \<Rightarrow> form_state \<Rightarrow> form_state" where
  "setFieldErrors f s =
     (case f (fieldErrors s) (nextRef s) of
        (v, n) \<Rightarrow>
          s\<lparr>fieldErrors := v, nextRef := n,
            stateChanges := (if Object_is v (fieldErrors s) then stateChanges s
                             else Suc (stateChanges s))\<rparr>)"

definition setTouchedFields :: "TouchedFields obj updater \<Rightarrow> form_state \<Rightarrow> form_state" where
  "setTouchedFields f s =
     (case f (touchedFields s) (nextRef s) of
        (v, n) \<Rightarrow>
          s\<lparr>touchedFields := v, nextRef := n,
            stateChanges := (if Object_is v (touchedFields s) then stateChanges s
                             else Suc (stateChanges s))\<rparr>)"

definition setHasBeenSubmitted :: "bool \<Rightarrow> form_state \<Rightarrow> form_state" where
  "setHasBeenSubmitted b s =
     (if hasBeenSubmitted s = b then s
      else s\<lparr>hasBeenSubmitted := b, stateChanges := Suc (stateChanges s)\<rparr>)"

text \<open>
  Modelled from the spec: \<open>omit\<close> (internal/util) is not among the source files. An
  entry is removed by building a new object without the key: state is "recomputed (not
  mutated in place)" (section 3). That the result is a new object also when the key is
  missing is what the guard in \<open>validateField\<close> (lines 236-249) is for: it returns
  \<open>prev\<close> itself before calling \<open>omit\<close>, "to avoid a re-render".
\<close>

definition omit :: "FieldErrors obj \<Rightarrow> string \<Rightarrow> nat \<Rightarrow> FieldErrors obj \<times> nat" where
  "omit ob k n = (Obj n (filter (\<lambda>p. fst p \<noteq> k) (props ob)), Suc n)"

section \<open>The document: the form element and its inputs\<close>

text \<open>
  A form element is read in two ways: \<open>new FormData(el)\<close> (line 122) and
  \<open>el.querySelectorAll(...)\<close> (line 155). \<open>descendants\<close> lists the elements below the
  form in document order. Of an element the selector tests the tag and the \<open>name\<close>
  attribute, which an element may lack; the loop reads the properties \<open>input.name\<close>
  and \<open>input.type\<close>. \<open>node\<close> tells two elements with the same attributes apart.
\<close>

record dom_element =
  node :: nat
  localName :: string
  name_attribute :: "string option"
  input_type :: string

text \<open>\<open>input.name\<close> reflects the attribute, and is the empty string without it.\<close>

definition input_name :: "dom_element \<Rightarrow> string" where
  "input_name e = (case name_attribute e of None \<Rightarrow> [] | Some v \<Rightarrow> v)"

record HTMLFormElement =
  descendants :: "dom_element list"
  formData :: FormData

definition getDataFromForm :: "HTMLFormElement \<Rightarrow> FormData" where
  "getDataFromForm el = formData el"

text \<open>
  Lines 152-154 build the selector as text: \<open>input[name="k"]\<close> for every key, with the
  key put between the double quotes as it is, joined by commas. For no key the text is
  empty.
\<close>

definition quote :: char where
  "quote = CHR 0x22"

definition selector_start :: string where
  "selector_start = ''input[name=''"

definition selector_end :: string where
  "selector_end = '']''"

definition attribute_selector :: "string \<Rightarrow> string" where
  "attribute_selector fieldName = selector_start @ quote # fieldName @ quote # selector_end"

fun join :: "string \<Rightarrow> string list \<Rightarrow> string" where
  "join sep [] = []"
| "join sep [x] = x"
| "join sep (x # y # ys) = x @ sep @ join sep (y # ys)"

text \<open>
  Reading the selector text is the browser's part: its selector engine either refuses
  the text, and \<open>querySelectorAll\<close> throws a \<open>SyntaxError\<close>, or says which elements of
  the form the selector selects, and \<open>querySelectorAll\<close> returns those descendants in
  document order. The engine is a parameter of the model.
\<close>

type_synonym selector_engine = "string \<Rightarrow> (HTMLFormElement \<Rightarrow> dom_element \<Rightarrow> bool) option"

definition querySelectorAll ::
  "selector_engine \<Rightarrow> HTMLFormElement \<Rightarrow> string \<Rightarrow> js_error + dom_element list" where
  "querySelectorAll css el selectors =
     (case css selectors of
        None \<Rightarrow> Inl SyntaxError
      | Some selects \<Rightarrow> Inr (filter (selects el) (descendants el)))"

text \<open>
  What CSS says of the selectors built here. Between double quotes, every character
  stands for itself but the double quote, the backslash, the line breaks (line feed,
  carriage return, form feed) and the null character. So for one or more names without
  these characters, the text built above is the list of the tests \<open>input[name="k"]\<close>,
  and it selects the \<open>input\<close> elements whose \<open>name\<close> attribute is one of the names.
  For other names the text may be no selector at all, or another selector.
\<close>

definition unsafe_chars :: "char list" where
  "unsafe_chars = [CHR 0x22, CHR 0x5C, CHR 0x0A, CHR 0x0D, CHR 0x0C, CHR 0x00]"

definition selector_safe :: "string \<Rightarrow> bool" where
  "selector_safe k = list_all (\<lambda>c. c \<notin> set unsafe_chars) k"

definition named_input :: "string \<Rightarrow> dom_element \<Rightarrow> bool" where
  "named_input k e = (localName e = ''input'' \<and> name_attribute e = Some k)"

definition conforming :: "selector_engine \<Rightarrow> bool" where
  "conforming css =
     (\<forall>ks. ks \<noteq> [] \<and> list_all selector_safe ks \<longrightarrow>
        css (join '','' (map attribute_selector ks))
          = Some (\<lambda>form e. list_ex (\<lambda>k. named_input k e) ks))"

text \<open>An event on the form: \<open>preventDefault\<close> cancels what the browser would do next.\<close>

record form_event =
  currentTarget :: HTMLFormElement
  defaultPrevented :: bool

definition preventDefault :: "form_event \<Rightarrow> form_event" where
  "preventDefault ev = ev\<lparr>defaultPrevented := True\<rparr>"

section \<open>The Validator contract and what the server sends back\<close>

text \<open>
  \<open>validator.validate\<close> returns \<open>{data}\<close> or \<open>{error: {fieldErrors}, submittedData}\<close>;
  \<open>validator.validateField\<close> returns \<open>{error?: string}\<close>, of which only \<open>error\<close> is read.
\<close>

datatype 'd ValidationResult = Success 'd | Failure "FieldErrors obj" FormData

record 'd Validator =
  v_validate :: "FormData \<Rightarrow> 'd ValidationResult"
  v_validateField :: "FormData \<Rightarrow> string \<Rightarrow> string option"

text \<open>
  What \<open>useActionData()\<close> or \<open>fetcher.data\<close> hold, as far as the component reads it:
  \<open>fieldErrors\<close> (absent in a response that is not a validation error), \<open>subaction\<close>
  and \<open>repopulateFields\<close>.
\<close>

record ActionData =
  ad_fieldErrors :: "FieldErrors obj option"
  ad_subaction :: "string option"
  ad_repopulateFields :: "FormData obj option"

datatype fetcher_state = idle | submitting | loading

record Fetcher =
  fetcher_state :: fetcher_state
  fetcher_data :: "ActionData option"

text \<open>\<open>useTransition().submission\<close>: the pending form submission of the page.\<close>

record Submission =
  sub_formData :: FormData
  sub_action :: string

definition FormData_get :: "FormData \<Rightarrow> string \<Rightarrow> string option" where
  "FormData_get fd k = map_of fd k"

section \<open>The hooks of ValidatedForm.tsx\<close>

text \<open>Lines 71-88.\<close>

definition useErrorResponseForThisForm ::
  "Fetcher option \<Rightarrow> string option \<Rightarrow> ActionData option \<Rightarrow> ActionData option" where
  "useErrorResponseForThisForm fetcher subaction actionData =
     (case fetcher of
        Some f \<Rightarrow>
          (case fetcher_data f of
             None \<Rightarrow> None
           | Some d \<Rightarrow> if ad_fieldErrors d \<noteq> None then Some d else None)
      | None \<Rightarrow>
          (case actionData of
             None \<Rightarrow> None
           | Some ad \<Rightarrow>
               if ad_fieldErrors ad = None then None
               else if (\<not> truthy subaction \<and> \<not> truthy (ad_subaction ad))
                       \<or> ad_subaction ad = subaction
               then Some ad
               else None))"

text \<open>
  Lines 90-101. \<open>useState(fieldErrorsFromBackend ?? {})\<close> gives the state of the first
  render; the effect runs after the first render and after every render in which
  \<open>fieldErrorsFromBackend\<close> is not \<open>Object.is\<close> the one of the render before.
\<close>

definition useFieldErrors_initial :: "FieldErrors obj option \<Rightarrow> nat \<Rightarrow> FieldErrors obj \<times> nat" where
  "useFieldErrors_initial fieldErrorsFromBackend n =
     (case fieldErrorsFromBackend of Some fe \<Rightarrow> (fe, n) | None \<Rightarrow> (Obj n [], Suc n))"

definition useFieldErrors_effect :: "FieldErrors obj option \<Rightarrow> form_state \<Rightarrow> form_state" where
  "useFieldErrors_effect fieldErrorsFromBackend s =
     (case fieldErrorsFromBackend of Some fe \<Rightarrow> setFieldErrors (given fe) s | None \<Rightarrow> s)"

definition same_dep :: "'a obj option \<Rightarrow> 'a obj option \<Rightarrow> bool" where
  "same_dep a b =
     (case (a, b) of
        (None, None) \<Rightarrow> True
      | (Some x, Some y) \<Rightarrow> Object_is x y
      | _ \<Rightarrow> False)"

definition useFieldErrors_rerender ::
  "FieldErrors obj option \<Rightarrow> FieldErrors obj option \<Rightarrow> form_state \<Rightarrow> form_state" where
  "useFieldErrors_rerender previous fieldErrorsFromBackend s =
     (if same_dep previous fieldErrorsFromBackend then s
      else useFieldErrors_effect fieldErrorsFromBackend s)"

text \<open>
  Lines 194-197: \<open>backendError?.fieldErrors\<close>, and with it the form's store after the
  effect of \<open>useFieldErrors\<close> has run for an action payload.
\<close>

definition fieldErrorsFromBackend :: "ActionData option \<Rightarrow> FieldErrors obj option" where
  "fieldErrorsFromBackend backendError =
     (case backendError of None \<Rightarrow> None | Some b \<Rightarrow> ad_fieldErrors b)"

definition seed :: "Fetcher option \<Rightarrow> string option \<Rightarrow> ActionData option \<Rightarrow> form_state \<Rightarrow> form_state" where
  "seed fetcher subaction actionData s =
     useFieldErrors_effect
       (fieldErrorsFromBackend (useErrorResponseForThisForm fetcher subaction actionData)) s"

text \<open>
  The matching rule for a form without fetcher, in the shape of the specification's
  sentence (section 6): "exact subaction match if the form declares one, or absence of
  any subaction on both sides otherwise", where a form declares a subaction, and a
  payload carries one, when it is a non-empty string. (For the empty string the form
  renders no hidden \<open>subaction\<close> field either, line 307.)
\<close>

definition subaction_match :: "string option \<Rightarrow> string option \<Rightarrow> bool" where
  "subaction_match subaction payload_subaction =
     (if truthy subaction then payload_subaction = subaction
      else \<not> truthy payload_subaction)"

text \<open>Lines 103-120.\<close>

definition useIsSubmitting ::
  "string option \<Rightarrow> string option \<Rightarrow> Fetcher option \<Rightarrow> string \<Rightarrow> Submission option \<Rightarrow> bool" where
  "useIsSubmitting action subaction fetcher actionForCurrentPage pendingFormSubmit =
     (case fetcher of
        Some f \<Rightarrow> fetcher_state f = submitting
      | None \<Rightarrow>
          (case pendingFormSubmit of
             None \<Rightarrow> False
           | Some p \<Rightarrow>
               (let pendingSubAction = FormData_get (sub_formData p) ''subaction'';
                    expectedAction = (case action of Some a \<Rightarrow> a | None \<Rightarrow> actionForCurrentPage)
                in if truthy subaction
                   then expectedAction = sub_action p \<and> subaction = pendingSubAction
                   else expectedAction = sub_action p \<and> \<not> truthy pendingSubAction)))"

text \<open>Lines 140-145: \<open>repopulateFieldsFromBackend ?? defaultValues\<close>.\<close>

definition useDefaultValues :: "'a option \<Rightarrow> 'a option \<Rightarrow> 'a option" where
  "useDefaultValues repopulateFieldsFromBackend defaultValues =
     (case repopulateFieldsFromBackend of Some r \<Rightarrow> Some r | None \<Rightarrow> defaultValues)"

section \<open>Focusing the first invalid input\<close>

text \<open>
  Modelled from the spec: \<open>MultiValueMap\<close> (internal/MultiValueMap) is not among the
  source files. It is "a multi-valued registry mapping a field name to zero or more
  custom receive-focus callbacks" (section 4.4), "a mapping from key to an ordered list
  of callback handles" (section 9): \<open>has\<close> says whether a handler is registered for
  the name, \<open>getAll\<close> gives the handlers of the name in order. A handler is known by
  its identity.
\<close>

type_synonym handler = nat
type_synonym MultiValueMap = "string \<Rightarrow> handler list"

definition has :: "MultiValueMap \<Rightarrow> string \<Rightarrow> bool" where
  "has m k = (m k \<noteq> [])"

definition getAll :: "MultiValueMap \<Rightarrow> string \<Rightarrow> handler list" where
  "getAll m k = m k"

text \<open>
  What \<open>focusFirstInvalidInput\<close> does to the page: it calls the handlers of one name,
  or \<open>focus()\<close> on one element, or nothing.
\<close>

datatype focus_effect = NoFocusChange | HandlersInvoked "handler list" | Focused dom_element

text \<open>The loop of lines 156-174 over the elements \<open>querySelectorAll\<close> returned.\<close>

fun focus_loop :: "MultiValueMap \<Rightarrow> dom_element list \<Rightarrow> focus_effect" where
  "focus_loop customFocusHandlers [] = NoFocusChange"
| "focus_loop customFocusHandlers (input # rest) =
     (if has customFocusHandlers (input_name input)
      then HandlersInvoked (getAll customFocusHandlers (input_name input))
      else if input_type input = ''hidden'' then focus_loop customFocusHandlers rest
      else Focused input)"

text \<open>Lines 147-175.\<close>

definition focusFirstInvalidInput ::
  "selector_engine \<Rightarrow> FieldErrors \<Rightarrow> MultiValueMap \<Rightarrow> HTMLFormElement
   \<Rightarrow> js_error + focus_effect" where
  "focusFirstInvalidInput css errs customFocusHandlers formElement =
     (let invalidInputSelector = join '','' (map attribute_selector (Object_keys errs))
      in case querySelectorAll css formElement invalidInputSelector of
           Inl e \<Rightarrow> Inl e
         | Inr invalidInputs \<Rightarrow> Inr (focus_loop customFocusHandlers invalidInputs))"

text \<open>
  The algorithm in the words of the specification (section 4.6), to compare with the
  code: it goes through the field names in the order of the errors; the field of a
  name is the first input of the form with that name.
\<close>

fun spec_focus :: "MultiValueMap \<Rightarrow> dom_element list \<Rightarrow> string list \<Rightarrow> focus_effect" where
  "spec_focus customFocusHandlers els [] = NoFocusChange"
| "spec_focus customFocusHandlers els (k # ks) =
     (if has customFocusHandlers k then HandlersInvoked (getAll customFocusHandlers k)
      else (case find (named_input k) els of
              None \<Rightarrow> spec_focus customFocusHandlers els ks
            | Some e \<Rightarrow>
                if input_type e = ''hidden'' then spec_focus customFocusHandlers els ks
                else Focused e))"

section \<open>The context value: clearError, validateField, setFieldTouched\<close>

text \<open>Lines 221-225.\<close>

definition setFieldTouched :: "string \<Rightarrow> bool \<Rightarrow> form_state \<Rightarrow> form_state" where
  "setFieldTouched fieldName touched s =
     setTouchedFields (\<lambda>prev n. (Obj n (spread_with (props prev) fieldName touched), Suc n)) s"

text \<open>Lines 226-228.\<close>

definition clearError :: "string \<Rightarrow> form_state \<Rightarrow> form_state" where
  "clearError fieldName s = setFieldErrors (\<lambda>prev. omit prev fieldName) s"

text \<open>
  Lines 229-252. \<open>invariant\<close> throws when the form element is not there; \<open>if (error)\<close>
  takes the first branch for a non-empty string only. The two functions given to
  \<open>setFieldErrors\<close> come first.
\<close>

definition set_error :: "string \<Rightarrow> string \<Rightarrow> FieldErrors obj updater" where
  "set_error fieldName error =
     (\<lambda>prev n.
        if get_own (props prev) fieldName = Some error then (prev, n)
        else (Obj n (spread_with (props prev) fieldName error), Suc n))"

definition remove_error :: "string \<Rightarrow> FieldErrors obj updater" where
  "remove_error fieldName =
     (\<lambda>prev n.
        if \<not> js_in fieldName (props prev) then (prev, n)
        else omit prev fieldName n)"

definition validateField ::
  "'d Validator \<Rightarrow> HTMLFormElement option \<Rightarrow> string \<Rightarrow> form_state \<Rightarrow> js_error + form_state" where
  "validateField validator formRef fieldName s =
     (case formRef of
        None \<Rightarrow> Inl InvariantFailed
      | Some el \<Rightarrow>
          (case v_validateField validator (getDataFromForm el) fieldName of
             Some error \<Rightarrow>
               if error \<noteq> [] then Inr (setFieldErrors (set_error fieldName error) s)
               else Inr (setFieldErrors (remove_error fieldName) s)
           | None \<Rightarrow> Inr (setFieldErrors (remove_error fieldName) s)))"

text \<open>
  Lines 213-272: the value \<open>useMemo\<close> computes, without its functions (above). The
  factory reads the values of the current render; \<open>useMemo\<close> keeps the value of an
  earlier render while every dependency is \<open>Object.is\<close> the one it was computed from.
  The validator is a dependency by its identity; \<open>setFieldErrors\<close> and
  \<open>customFocusHandlers\<close> never change.
\<close>

record FormContextValue =
  cv_fieldErrors :: "FieldErrors obj"
  cv_action :: "string option"
  cv_defaultValues :: "FormData obj option"
  cv_isSubmitting :: bool
  cv_isValid :: bool
  cv_touchedFields :: "TouchedFields obj"
  cv_hasBeenSubmitted :: bool

record render_values =
  rv_fieldErrors :: "FieldErrors obj"
  rv_action :: "string option"
  rv_defaultsToUse :: "FormData obj option"
  rv_isSubmitting :: bool
  rv_touchedFields :: "TouchedFields obj"
  rv_hasBeenSubmitted :: bool
  rv_validator :: nat

definition contextValue :: "render_values \<Rightarrow> FormContextValue" where
  "contextValue rv =
     \<lparr>cv_fieldErrors = rv_fieldErrors rv,
      cv_action = rv_action rv,
      cv_defaultValues = rv_defaultsToUse rv,
      cv_isSubmitting = rv_isSubmitting rv,
      cv_isValid = (length (Object_keys (props (rv_fieldErrors rv))) = 0),
      cv_touchedFields = rv_touchedFields rv,
      cv_hasBeenSubmitted = rv_hasBeenSubmitted rv\<rparr>"

definition same_deps :: "render_values \<Rightarrow> render_values \<Rightarrow> bool" where
  "same_deps a b =
     (Object_is (rv_fieldErrors a) (rv_fieldErrors b)
      \<and> rv_action a = rv_action b
      \<and> same_dep (rv_defaultsToUse a) (rv_defaultsToUse b)
      \<and> rv_isSubmitting a = rv_isSubmitting b
      \<and> Object_is (rv_touchedFields a) (rv_touchedFields b)
      \<and> rv_hasBeenSubmitted a = rv_hasBeenSubmitted b
      \<and> rv_validator a = rv_validator b)"

type_synonym memo = "(render_values \<times> FormContextValue) option"

definition useMemo_contextValue :: "memo \<Rightarrow> render_values \<Rightarrow> memo" where
  "useMemo_contextValue cache rv =
     (case cache of
        None \<Rightarrow> Some (rv, contextValue rv)
      | Some (deps, v) \<Rightarrow>
          if same_deps deps rv then Some (deps, v) else Some (rv, contextValue rv))"

text \<open>One render after the other, each with the values of its state.\<close>

fun renders :: "memo \<Rightarrow> render_values list \<Rightarrow> memo" where
  "renders cache [] = cache"
| "renders cache (rv # rvs) = renders (useMemo_contextValue cache rv) rvs"

section \<open>The form's event handlers\<close>

text \<open>
  Lines 281-297. The handler's effects: the state, the event (cancelled or not), the
  calls of the caller's \<open>onSubmit\<close> (its first argument each), and what
  \<open>focusFirstInvalidInput\<close> did when it ran. The caller's \<open>onSubmit\<close> is given the
  event and may cancel it. \<open>formRef.current!\<close> that is \<open>null\<close> makes
  \<open>querySelectorAll\<close> a \<open>TypeError\<close>. An exception leaves the updates queued before
  it in place. \<open>css\<close> is the selector engine of the browser the form runs in.
\<close>

record 'd submit_outcome =
  so_state :: form_state
  so_event :: form_event
  so_onSubmit_calls :: "'d list"
  so_focus :: "(js_error + focus_effect) option"

definition Form_onSubmit ::
  "selector_engine \<Rightarrow> 'd Validator \<Rightarrow> ('d \<Rightarrow> form_event \<Rightarrow> form_event) option \<Rightarrow> bool
   \<Rightarrow> MultiValueMap \<Rightarrow> HTMLFormElement option \<Rightarrow> form_state \<Rightarrow> form_event
   \<Rightarrow> 'd submit_outcome" where
  "Form_onSubmit css validator onSubmit disableFocusOnError customFocusHandlers formRef s event =
     (let s1 = setHasBeenSubmitted True s
      in case v_validate validator (getDataFromForm (currentTarget event)) of
           Failure errs submittedData \<Rightarrow>
             \<lparr>so_state = setFieldErrors (given errs) s1,
              so_event = preventDefault event,
              so_onSubmit_calls = [],
              so_focus =
                (if \<not> disableFocusOnError
                 then Some (case formRef of
                              None \<Rightarrow> Inl TypeError
                            | Some el \<Rightarrow>
                                focusFirstInvalidInput css (props errs) customFocusHandlers el)
                 else None)\<rparr>
         | Success d \<Rightarrow>
             \<lparr>so_state = s1,
              so_event = (case onSubmit of None \<Rightarrow> event | Some cb \<Rightarrow> cb d event),
              so_onSubmit_calls = (case onSubmit of None \<Rightarrow> [] | Some cb \<Rightarrow> [d]),
              so_focus = None\<rparr>)"

text \<open>Lines 298-304. The caller's \<open>onReset\<close> is given the event and may cancel it.\<close>

definition Form_onReset ::
  "(form_event \<Rightarrow> form_event) option \<Rightarrow> form_state \<Rightarrow> form_event \<Rightarrow> form_state \<times> form_event" where
  "Form_onReset onReset s event =
     (let event1 = (case onReset of None \<Rightarrow> event | Some h \<Rightarrow> h event)
      in if defaultPrevented event1 then (s, event1)
         else (setHasBeenSubmitted False
                 (setTouchedFields (new_object [])
                    (setFieldErrors (new_object []) s)),
               event1))"

section \<open>Submission complete\<close>

text \<open>
  Lines 206-210, the callback given to \<open>useSubmitComplete\<close>: the form element on which
  \<open>reset()\<close> is called, if any.
\<close>

definition submitComplete_callback ::
  "ActionData option \<Rightarrow> bool \<Rightarrow> HTMLFormElement option \<Rightarrow> HTMLFormElement option" where
  "submitComplete_callback backendError resetAfterSubmit formRef =
     (if backendError = None \<and> resetAfterSubmit then formRef else None)"

text \<open>
  Modelled from the spec: \<open>useSubmitComplete\<close> (internal/submissionCallbacks) is not
  among the source files. It is "an edge-triggered watcher over a two-state
  (submitting/idle) signal, firing only on the falling edge" (section 9): it remembers
  that a submission is pending, and in the first render that is idle again it forgets it
  and calls the callback.
\<close>

definition useSubmitComplete :: "bool \<Rightarrow> bool \<Rightarrow> bool \<times> bool" where
  "useSubmitComplete isPending isSubmitting =
     (if isSubmitting then (True, False) else (False, isPending))"

text \<open>
  The renders of one mounted form, each with its \<open>isSubmitting\<close>, \<open>backendError\<close>,
  \<open>resetAfterSubmit\<close> and \<open>formRef.current\<close>; of each render, whether the callback
  fired and the form it reset.
\<close>

record render_input =
  r_isSubmitting :: bool
  r_backendError :: "ActionData option"
  r_resetAfterSubmit :: bool
  r_formRef :: "HTMLFormElement option"

fun submit_renders :: "bool \<Rightarrow> render_input list \<Rightarrow> (bool \<times> HTMLFormElement option) list" where
  "submit_renders isPending [] = []"
| "submit_renders isPending (r # rs) =
     (case useSubmitComplete isPending (r_isSubmitting r) of
        (isPending', fired) \<Rightarrow>
          (fired,
           if fired
           then submitComplete_callback (r_backendError r) (r_resetAfterSubmit r) (r_formRef r)
           else None)
          # submit_renders isPending' rs)"

section \<open>The invariant of the memoised context value, and example values\<close>

text \<open>A cached context value is the factory's value for the dependencies kept with it.\<close>

definition memo_ok :: "memo \<Rightarrow> bool" where
  "memo_ok cache = (case cache of None \<Rightarrow> True | Some (deps, v) \<Rightarrow> v = contextValue deps)"

text \<open>
  The form of the test app's validation route: two text inputs, and a validator that
  requires \<open>firstName\<close>. Its data is the first name.
\<close>

definition an_input :: "nat \<Rightarrow> string \<Rightarrow> string \<Rightarrow> dom_element" where
  "an_input n k t = \<lparr>node = n, localName = ''input'', name_attribute = Some k, input_type = t\<rparr>"

definition firstName_input :: dom_element where
  "firstName_input = an_input 0 ''firstName'' ''text''"

definition lastName_input :: dom_element where
  "lastName_input = an_input 1 ''lastName'' ''text''"

text \<open>A submit button without a \<open>name\<close> attribute.\<close>

definition submit_button :: dom_element where
  "submit_button =
     \<lparr>node = 2, localName = ''input'', name_attribute = None, input_type = ''submit''\<rparr>"

definition name_form :: "FormData \<Rightarrow> HTMLFormElement" where
  "name_form fd =
     \<lparr>descendants = [firstName_input, lastName_input, submit_button], formData = fd\<rparr>"

text \<open>
  A selector engine that reads the lists of tests \<open>input[name="k"]\<close> with names as
  above, and refuses every other text. It cuts the text at the double quotes and reads
  the pieces between them.
\<close>

fun split_at :: "char \<Rightarrow> string \<Rightarrow> string list" where
  "split_at c [] = [[]]"
| "split_at c (x # xs) =
     (if x = c then [] # split_at c xs
      else (case split_at c xs of [] \<Rightarrow> [[x]] | p # ps \<Rightarrow> (x # p) # ps))"

fun read_names :: "string list \<Rightarrow> string list option" where
  "read_names [k, rest] = (if rest = selector_end \<and> selector_safe k then Some [k] else None)"
| "read_names (k # sep # pieces) =
     (if sep = selector_end @ '','' @ selector_start \<and> selector_safe k
      then map_option ((#) k) (read_names pieces)
      else None)"
| "read_names pieces = None"

definition attribute_list_engine :: selector_engine where
  "attribute_list_engine selectors =
     (case split_at quote selectors of
        [] \<Rightarrow> None
      | start # pieces \<Rightarrow>
          if start = selector_start then
            map_option (\<lambda>ks form e. list_ex (\<lambda>k. named_input k e) ks) (read_names pieces)
          else None)"

text \<open>The selector text without its first piece, for the proof that the engine conforms.\<close>

fun body :: "string list \<Rightarrow> string" where
  "body [] = []"
| "body [k] = k @ quote # selector_end"
| "body (k # k' # ks) =
     k @ quote # (selector_end @ '','' @ selector_start) @ quote # body (k' # ks)"

definition required_message :: string where
  "required_message = ''First Name is a required field''"

definition name_validator :: "string Validator" where
  "name_validator =
     \<lparr>v_validate =
        (\<lambda>fd. case FormData_get fd ''firstName'' of
                None \<Rightarrow> Failure (Obj 0 [(''firstName'', required_message)]) fd
              | Some v \<Rightarrow>
                  if v = [] then Failure (Obj 0 [(''firstName'', required_message)]) fd
                  else Success v),
      v_validateField =
        (\<lambda>fd k. if k = ''firstName'' \<and> \<not> truthy (FormData_get fd k)
                 then Some required_message else None)\<rparr>"

definition fresh_state :: form_state where
  "fresh_state =
     \<lparr>fieldErrors = Obj 1 [], touchedFields = Obj 2 [], hasBeenSubmitted = False,
      nextRef = 3, stateChanges = 0\<rparr>"

definition used_state :: form_state where
  "used_state =
     \<lparr>fieldErrors = Obj 0 [(''firstName'', required_message)],
      touchedFields = Obj 3 [(''firstName'', True)], hasBeenSubmitted = True,
      nextRef = 4, stateChanges = 3\<rparr>"

definition no_handlers :: MultiValueMap where
  "no_handlers = (\<lambda>k. [])"

definition event_on :: "HTMLFormElement \<Rightarrow> form_event" where
  "event_on el = \<lparr>currentTarget = el, defaultPrevented = False\<rparr>"

definition error_payload :: "string option \<Rightarrow> ActionData" where
  "error_payload sa =
     \<lparr>ad_fieldErrors = Some (Obj 7 [(''testinput'', ''Do not say that'')]),
      ad_subaction = sa, ad_repopulateFields = None\<rparr>"

section \<open>Submitting the form\<close>

text \<open>
  C1. When \<open>validator.validate\<close> fails on the payload of the submitted form with
  field errors \<open>errs\<close>, the submit handler cancels the event (so nothing is sent),
  sets \<open>hasBeenSubmitted\<close> and puts \<open>errs\<close>, whole, in the place of the Field Error
  Store, whatever the store held and whatever the focus step does; the caller's
  \<open>onSubmit\<close> is not called.
\<close>

theorem submit_failure_blocks_and_replaces_errors:
  assumes "v_validate validator (getDataFromForm (currentTarget event)) = Failure errs submittedData"
  shows "defaultPrevented (so_event
            (Form_onSubmit css validator onSubmit disableFocusOnError customFocusHandlers formRef s event))
       \<and> hasBeenSubmitted (so_state
            (Form_onSubmit css validator onSubmit disableFocusOnError customFocusHandlers formRef s event))
       \<and> fieldErrors (so_state
            (Form_onSubmit css validator onSubmit disableFocusOnError customFocusHandlers formRef s event))
           = errs
       \<and> so_onSubmit_calls
            (Form_onSubmit css validator onSubmit disableFocusOnError customFocusHandlers formRef s event)
           = []"
  using assms
  by (simp add: Form_onSubmit_def Let_def preventDefault_def setFieldErrors_def given_def
      setHasBeenSubmitted_def)

text \<open>
  The end-to-end scenario of the specification: an empty \<open>firstName\<close> is refused, the
  store holds the one message, and the submission is blocked.
\<close>

theorem submit_failure_witness:
  "v_validate name_validator
       (getDataFromForm (currentTarget
          (event_on (name_form [(''firstName'', ''''), (''lastName'', ''Doe'')]))))
     = Failure (Obj 0 [(''firstName'', required_message)])
         [(''firstName'', ''''), (''lastName'', ''Doe'')]
   \<and> defaultPrevented (so_event
         (Form_onSubmit attribute_list_engine name_validator None False no_handlers
            (Some (name_form [(''firstName'', ''''), (''lastName'', ''Doe'')])) fresh_state
            (event_on (name_form [(''firstName'', ''''), (''lastName'', ''Doe'')]))))
   \<and> hasBeenSubmitted (so_state
         (Form_onSubmit attribute_list_engine name_validator None False no_handlers
            (Some (name_form [(''firstName'', ''''), (''lastName'', ''Doe'')])) fresh_state
            (event_on (name_form [(''firstName'', ''''), (''lastName'', ''Doe'')]))))
   \<and> fieldErrors (so_state
         (Form_onSubmit attribute_list_engine name_validator None False no_handlers
            (Some (name_form [(''firstName'', ''''), (''lastName'', ''Doe'')])) fresh_state
            (event_on (name_form [(''firstName'', ''''), (''lastName'', ''Doe'')]))))
       = Obj 0 [(''firstName'', required_message)]"
proof -
  have failure:
    "v_validate name_validator
       (getDataFromForm (currentTarget
          (event_on (name_form [(''firstName'', ''''), (''lastName'', ''Doe'')]))))
     = Failure (Obj 0 [(''firstName'', required_message)])
         [(''firstName'', ''''), (''lastName'', ''Doe'')]"
    by (simp add: name_validator_def getDataFromForm_def event_on_def name_form_def
        FormData_get_def)
  from submit_failure_blocks_and_replaces_errors [OF failure, of attribute_list_engine None False
      no_handlers
      "Some (name_form [(''firstName'', ''''), (''lastName'', ''Doe'')])" fresh_state]
  show ?thesis using failure by simp
qed

text \<open>
  C2. When \<open>validator.validate\<close> succeeds with data \<open>d\<close>, the submit handler does not
  cancel the event: the event is as the caller's \<open>onSubmit\<close> leaves it, and untouched
  when there is no \<open>onSubmit\<close>. A supplied \<open>onSubmit\<close> is called once, with \<open>d\<close> as its
  first argument; the Field Error Store stays as it is and nothing is focused.
\<close>

theorem submit_success_calls_onSubmit:
  assumes "v_validate validator (getDataFromForm (currentTarget event)) = Success d"
  shows "so_event
            (Form_onSubmit css validator onSubmit disableFocusOnError customFocusHandlers formRef s event)
           = (case onSubmit of None \<Rightarrow> event | Some cb \<Rightarrow> cb d event)
       \<and> so_onSubmit_calls
            (Form_onSubmit css validator onSubmit disableFocusOnError customFocusHandlers formRef s event)
           = (case onSubmit of None \<Rightarrow> [] | Some cb \<Rightarrow> [d])
       \<and> fieldErrors (so_state
            (Form_onSubmit css validator onSubmit disableFocusOnError customFocusHandlers formRef s event))
           = fieldErrors s
       \<and> so_focus
            (Form_onSubmit css validator onSubmit disableFocusOnError customFocusHandlers formRef s event)
           = None"
  using assms
  by (simp add: Form_onSubmit_def Let_def setHasBeenSubmitted_def)

text \<open>A filled form, with a caller's \<open>onSubmit\<close> that leaves the event alone.\<close>

theorem submit_success_witness:
  "v_validate name_validator
       (getDataFromForm (currentTarget
          (event_on (name_form [(''firstName'', ''Jane''), (''lastName'', ''Doe'')]))))
     = Success ''Jane''
   \<and> \<not> defaultPrevented (so_event
         (Form_onSubmit attribute_list_engine name_validator (Some (\<lambda>d ev. ev)) False no_handlers
            (Some (name_form [(''firstName'', ''Jane''), (''lastName'', ''Doe'')])) fresh_state
            (event_on (name_form [(''firstName'', ''Jane''), (''lastName'', ''Doe'')]))))
   \<and> so_onSubmit_calls
         (Form_onSubmit attribute_list_engine name_validator (Some (\<lambda>d ev. ev)) False no_handlers
            (Some (name_form [(''firstName'', ''Jane''), (''lastName'', ''Doe'')])) fresh_state
            (event_on (name_form [(''firstName'', ''Jane''), (''lastName'', ''Doe'')])))
       = [''Jane'']"
proof -
  have success:
    "v_validate name_validator
       (getDataFromForm (currentTarget
          (event_on (name_form [(''firstName'', ''Jane''), (''lastName'', ''Doe'')]))))
     = Success ''Jane''"
    by (simp add: name_validator_def getDataFromForm_def event_on_def name_form_def
        FormData_get_def)
  from submit_success_calls_onSubmit [OF success, of attribute_list_engine "Some (\<lambda>d ev. ev)"
      False no_handlers
      "Some (name_form [(''firstName'', ''Jane''), (''lastName'', ''Doe'')])" fresh_state]
  show ?thesis using success by (simp add: event_on_def)
qed

section \<open>Matching a server response to its form\<close>

lemma useErrorResponseForThisForm_no_fetcher:
  assumes "ad_fieldErrors payload = Some errs"
  shows "useErrorResponseForThisForm None subaction (Some payload)
           = (if subaction_match subaction (ad_subaction payload) then Some payload else None)"
  using assms
  by (auto simp add: useErrorResponseForThisForm_def subaction_match_def truthy_def
      split: option.splits)

lemma seed_matched:
  assumes "useErrorResponseForThisForm fetcher subaction actionData = Some payload"
    and "ad_fieldErrors payload = Some errs"
  shows "fieldErrors (seed fetcher subaction actionData s) = errs"
  using assms
  by (simp add: seed_def fieldErrorsFromBackend_def useFieldErrors_effect_def setFieldErrors_def
      given_def)

lemma seed_unmatched:
  assumes "useErrorResponseForThisForm fetcher subaction actionData = None"
  shows "seed fetcher subaction actionData s = s"
  using assms
  by (simp add: seed_def fieldErrorsFromBackend_def useFieldErrors_effect_def)

lemma subaction_match_s1:
  "subaction_match (Some ''s1'') (Some ''s1'')"
  "\<not> subaction_match (Some ''s2'') (Some ''s1'')"
  by (simp_all add: subaction_match_def truthy_def)

text \<open>
  C3, as stated, fails in two places. A form that has a fetcher is never given the
  page's action payload, also when its subaction is the payload's: its store stays as
  it is. And a form whose subaction is the empty string is given the payload that
  carries no subaction, although the two are not equal and the form does declare one.
\<close>

theorem subaction_match_counterexample:
  "ad_fieldErrors (error_payload (Some ''s1'')) \<noteq> None
   \<and> ad_subaction (error_payload (Some ''s1'')) = Some ''s1''
   \<and> useErrorResponseForThisForm (Some \<lparr>fetcher_state = idle, fetcher_data = None\<rparr>)
        (Some ''s1'') (Some (error_payload (Some ''s1'')))
     = None
   \<and> seed (Some \<lparr>fetcher_state = idle, fetcher_data = None\<rparr>)
        (Some ''s1'') (Some (error_payload (Some ''s1''))) fresh_state
     = fresh_state
   \<and> ad_subaction (error_payload None) \<noteq> Some ''''
   \<and> useErrorResponseForThisForm None (Some '''') (Some (error_payload None))
     = Some (error_payload None)
   \<and> fieldErrors (seed None (Some '''') (Some (error_payload None)) fresh_state)
     = Obj 7 [(''testinput'', ''Do not say that'')]"
  by (simp add: useErrorResponseForThisForm_def seed_def fieldErrorsFromBackend_def
      useFieldErrors_effect_def setFieldErrors_def given_def error_payload_def truthy_def)

text \<open>
  C3, amended. For a form without fetcher, an action payload that carries field errors
  is the form's error response exactly when the subactions match: a form with a
  non-empty subaction takes the payload with that same subaction, a form with none (or
  the empty one) takes the payload that carries none (or the empty one). The payload's
  field errors become the store of the forms it matches, at the first render and by the
  effect later; the store of every other form is left as it is. So of two forms with
  the subactions \<open>s1\<close> and \<open>s2\<close>, a payload tagged \<open>s1\<close> fills the first only.
\<close>

theorem error_response_matched_by_subaction:
  assumes "ad_fieldErrors payload = Some errs"
  shows "useErrorResponseForThisForm None subaction (Some payload)
           = (if subaction_match subaction (ad_subaction payload) then Some payload else None)
       \<and> fst (useFieldErrors_initial
              (fieldErrorsFromBackend (useErrorResponseForThisForm None subaction (Some payload))) n)
           = (if subaction_match subaction (ad_subaction payload) then errs else Obj n [])
       \<and> fieldErrors (seed None subaction (Some payload) s)
           = (if subaction_match subaction (ad_subaction payload) then errs else fieldErrors s)
       \<and> (\<not> subaction_match subaction (ad_subaction payload)
            \<longrightarrow> seed None subaction (Some payload) s = s)
       \<and> (ad_subaction payload = Some ''s1''
            \<longrightarrow> fieldErrors (seed None (Some ''s1'') (Some payload) s1) = errs
               \<and> seed None (Some ''s2'') (Some payload) s2 = s2)"
proof -
  note response = useErrorResponseForThisForm_no_fetcher [OF assms]
  have initial:
    "fst (useFieldErrors_initial
            (fieldErrorsFromBackend (useErrorResponseForThisForm None subaction (Some payload))) n)
       = (if subaction_match subaction (ad_subaction payload) then errs else Obj n [])"
    using assms by (simp add: response fieldErrorsFromBackend_def useFieldErrors_initial_def)
  have effect:
    "fieldErrors (seed None subaction (Some payload) s)
       = (if subaction_match subaction (ad_subaction payload) then errs else fieldErrors s)"
    using assms by (simp add: response seed_matched seed_unmatched)
  have others:
    "\<not> subaction_match subaction (ad_subaction payload)
       \<longrightarrow> seed None subaction (Some payload) s = s"
    by (simp add: response seed_unmatched)
  have two_forms:
    "ad_subaction payload = Some ''s1''
       \<longrightarrow> fieldErrors (seed None (Some ''s1'') (Some payload) s1) = errs
          \<and> seed None (Some ''s2'') (Some payload) s2 = s2"
    using assms
    by (simp add: useErrorResponseForThisForm_no_fetcher subaction_match_s1 seed_matched
        seed_unmatched)
  from response initial effect others two_forms show ?thesis by (intro conjI)
qed

text \<open>
  The two forms of the claim, and the payload tagged \<open>s1\<close>: the first form's store
  becomes the payload's field errors, the second form keeps its state, and so does a
  form without subaction.
\<close>

theorem subaction_isolation_witness:
  "ad_fieldErrors (error_payload (Some ''s1'')) = Some (Obj 7 [(''testinput'', ''Do not say that'')])
   \<and> useErrorResponseForThisForm None (Some ''s1'') (Some (error_payload (Some ''s1'')))
       = Some (error_payload (Some ''s1''))
   \<and> useErrorResponseForThisForm None (Some ''s2'') (Some (error_payload (Some ''s1''))) = None
   \<and> useErrorResponseForThisForm None None (Some (error_payload (Some ''s1''))) = None
   \<and> fieldErrors (seed None (Some ''s1'') (Some (error_payload (Some ''s1''))) fresh_state)
       = Obj 7 [(''testinput'', ''Do not say that'')]
   \<and> seed None (Some ''s2'') (Some (error_payload (Some ''s1''))) used_state = used_state"
proof -
  have carries:
    "ad_fieldErrors (error_payload (Some ''s1'')) = Some (Obj 7 [(''testinput'', ''Do not say that'')])"
    by (simp add: error_payload_def)
  have tagged: "ad_subaction (error_payload (Some ''s1'')) = Some ''s1''"
    by (simp add: error_payload_def)
  from error_response_matched_by_subaction [OF carries, of "Some ''s1''" 0 fresh_state fresh_state used_state]
    error_response_matched_by_subaction [OF carries, of "Some ''s2''" 0 fresh_state fresh_state used_state]
    error_response_matched_by_subaction [OF carries, of None 0 fresh_state fresh_state used_state]
  show ?thesis
    using carries tagged by (simp add: subaction_match_def truthy_def)
qed

text \<open>
  C10. With a fetcher, neither the subaction nor the page's action data is looked at:
  the fetcher's data is this form's error response whenever it carries field errors,
  and \<open>isSubmitting\<close> is the fetcher's state being \<open>submitting\<close>, whatever the form's
  action and subaction and whatever submission is pending on the page.
\<close>

theorem fetcher_bypasses_subaction:
  "useErrorResponseForThisForm (Some f) subaction actionData
     = (case fetcher_data f of
          None \<Rightarrow> None
        | Some d \<Rightarrow> if ad_fieldErrors d \<noteq> None then Some d else None)
   \<and> useIsSubmitting action subaction (Some f) actionForCurrentPage pendingFormSubmit
     = (fetcher_state f = submitting)"
  by (simp add: useErrorResponseForThisForm_def useIsSubmitting_def)

text \<open>
  A form with subaction \<open>s2\<close> and a fetcher whose data is tagged \<open>s1\<close>: the data is
  the form's error response all the same, and a pending page submission to another
  action does not make the form submitting or idle.
\<close>

theorem fetcher_witness:
  "useErrorResponseForThisForm
       (Some \<lparr>fetcher_state = submitting, fetcher_data = Some (error_payload (Some ''s1''))\<rparr>)
       (Some ''s2'') None
     = Some (error_payload (Some ''s1''))
   \<and> useIsSubmitting (Some ''/a'') (Some ''s2'')
       (Some \<lparr>fetcher_state = submitting, fetcher_data = Some (error_payload (Some ''s1''))\<rparr>)
       ''/page'' (Some \<lparr>sub_formData = [(''subaction'', ''s1'')], sub_action = ''/b''\<rparr>)
   \<and> \<not> useIsSubmitting (Some ''/b'') (Some ''s1'')
       (Some \<lparr>fetcher_state = idle, fetcher_data = None\<rparr>)
       ''/page'' (Some \<lparr>sub_formData = [(''subaction'', ''s1'')], sub_action = ''/b''\<rparr>)"
  using fetcher_bypasses_subaction
      [of "\<lparr>fetcher_state = submitting, fetcher_data = Some (error_payload (Some ''s1''))\<rparr>"
          "Some ''s2''" None "Some ''/a''" "''/page''"
          "Some \<lparr>sub_formData = [(''subaction'', ''s1'')], sub_action = ''/b''\<rparr>"]
    fetcher_bypasses_subaction
      [of "\<lparr>fetcher_state = idle, fetcher_data = None\<rparr>"
          "Some ''s1''" None "Some ''/b''" "''/page''"
          "Some \<lparr>sub_formData = [(''subaction'', ''s1'')], sub_action = ''/b''\<rparr>"]
  by (simp add: error_payload_def)

section \<open>Which input takes the focus\<close>

lemma Object_keys_Nil: "(Object_keys errs = []) = (errs = [])"
  by (simp add: Object_keys_def)

lemma split_at_none: "c \<notin> set a \<Longrightarrow> split_at c a = [a]"
  by (induction a) auto

lemma split_at_append: "c \<notin> set a \<Longrightarrow> split_at c (a @ c # r) = a # split_at c r"
  by (induction a) auto

lemma selector_safe_no_quote: "selector_safe k \<Longrightarrow> quote \<notin> set k"
  by (auto simp add: selector_safe_def unsafe_chars_def quote_def list_all_iff)

lemma no_quote_in_frame:
  "quote \<notin> set selector_start" "quote \<notin> set selector_end"
  "quote \<notin> set (selector_end @ '','' @ selector_start)"
  by (simp_all add: quote_def selector_start_def selector_end_def)

lemma join_body:
  "ks \<noteq> [] \<Longrightarrow> join '','' (map attribute_selector ks) = selector_start @ quote # body ks"
  by (induction ks rule: body.induct) (simp_all add: attribute_selector_def)

lemma read_names_body:
  "ks \<noteq> [] \<Longrightarrow> list_all selector_safe ks \<Longrightarrow> read_names (split_at quote (body ks)) = Some ks"
proof (induction ks rule: body.induct)
  case 1
  then show ?case by simp
next
  case (2 k)
  then have "quote \<notin> set k"
    by (simp add: selector_safe_no_quote)
  then have "split_at quote (body [k]) = [k, selector_end]"
    by (simp add: split_at_append split_at_none no_quote_in_frame)
  with 2 show ?case by simp
next
  case (3 k k' ks)
  then have k: "quote \<notin> set k" "selector_safe k"
    by (simp_all add: selector_safe_no_quote)
  have "split_at quote (body (k # k' # ks))
          = k # (selector_end @ '','' @ selector_start) # split_at quote (body (k' # ks))"
    by (simp only: body.simps split_at_append [OF k(1)]
        split_at_append [OF no_quote_in_frame(3)])
  moreover have "read_names (split_at quote (body (k' # ks))) = Some (k' # ks)"
    using 3 by simp
  moreover obtain p ps where "split_at quote (body (k' # ks)) = p # ps"
    by (cases "split_at quote (body (k' # ks))") (use calculation(2) in auto)
  ultimately show ?case
    using k(2) by (cases ps) auto
qed

lemma attribute_list_engine_conforming: "conforming attribute_list_engine"
  unfolding conforming_def
proof (intro allI impI)
  fix ks :: "string list"
  assume names: "ks \<noteq> [] \<and> list_all selector_safe ks"
  have "split_at quote (join '','' (map attribute_selector ks))
          = selector_start # split_at quote (body ks)"
    using names by (simp add: join_body split_at_append [OF no_quote_in_frame(1)])
  then show "attribute_list_engine (join '','' (map attribute_selector ks))
          = Some (\<lambda>form e. list_ex (\<lambda>k. named_input k e) ks)"
    using names by (simp add: attribute_list_engine_def read_names_body)
qed

lemma focusFirstInvalidInput_conforming:
  assumes "conforming css" and "errs \<noteq> []" and "list_all selector_safe (Object_keys errs)"
  shows "focusFirstInvalidInput css errs h form =
           Inr (focus_loop h
                  (filter (\<lambda>e. list_ex (\<lambda>k. named_input k e) (Object_keys errs))
                     (descendants form)))"
proof -
  have "css (join '','' (map attribute_selector (Object_keys errs)))
          = Some (\<lambda>form e. list_ex (\<lambda>k. named_input k e) (Object_keys errs))"
    using assms by (simp add: conforming_def Object_keys_Nil)
  then show ?thesis
    by (simp add: focusFirstInvalidInput_def querySelectorAll_def Let_def)
qed

lemma focus_loop_dropWhile:
  "focus_loop h xs =
     (case dropWhile (\<lambda>e. \<not> has h (input_name e) \<and> input_type e = ''hidden'') xs of
        [] \<Rightarrow> NoFocusChange
      | e # rest \<Rightarrow>
          if has h (input_name e) then HandlersInvoked (getAll h (input_name e)) else Focused e)"
  by (induction xs) auto

lemma focus_loop_no_handlers:
  assumes "\<forall>e \<in> set xs. \<not> has h (input_name e)"
  shows "focus_loop h xs =
           (case filter (\<lambda>e. input_type e \<noteq> ''hidden'') xs of
              [] \<Rightarrow> NoFocusChange
            | e # rest \<Rightarrow> Focused e)"
  using assms by (induction xs) auto

lemma named_input_name: "named_input k e \<Longrightarrow> input_name e = k"
  by (simp add: named_input_def input_name_def)

lemma focus_lands_on_visible:
  assumes engine: "conforming css" and safe: "list_all selector_safe (Object_keys errs)"
    and keys: "Object_keys errs = [a, b]"
    and no_a: "\<not> has h a" and no_b: "\<not> has h b"
    and a_hidden: "\<forall>e \<in> set (descendants form). named_input a e \<longrightarrow> input_type e = ''hidden''"
    and b_visible: "\<exists>e \<in> set (descendants form). named_input b e \<and> input_type e \<noteq> ''hidden''"
  shows "\<exists>e. focusFirstInvalidInput css errs h form = Inr (Focused e)
            \<and> e \<in> set (descendants form) \<and> named_input b e \<and> input_type e \<noteq> ''hidden''"
proof -
  let ?invalid = "filter (\<lambda>e. list_ex (\<lambda>k. named_input k e) (Object_keys errs))
                    (descendants form)"
  let ?visible = "filter (\<lambda>e. input_type e \<noteq> ''hidden'') ?invalid"
  have none: "\<forall>e \<in> set ?invalid. \<not> has h (input_name e)"
    using keys no_a no_b by (auto simp add: named_input_name)
  have some: "errs \<noteq> []"
    using keys by (auto simp add: Object_keys_def)
  have run: "focusFirstInvalidInput css errs h form = Inr (focus_loop h ?invalid)"
    by (rule focusFirstInvalidInput_conforming [OF engine some safe])
  from b_visible obtain x where "x \<in> set (descendants form)" "named_input b x"
    "input_type x \<noteq> ''hidden''"
    by blast
  then have "x \<in> set ?visible"
    using keys by simp
  then have "?visible \<noteq> []"
    by (metis empty_iff list.set(1))
  then obtain e rest where first: "?visible = e # rest"
    by (cases ?visible) simp_all
  then have "e \<in> set ?visible"
    by (metis list.set_intros(1))
  then have e: "e \<in> set (descendants form)" "input_type e \<noteq> ''hidden''"
    "named_input a e \<or> named_input b e"
    using keys by auto
  with a_hidden have named: "named_input b e"
    by blast
  have "focus_loop h ?invalid = Focused e"
    by (simp only: focus_loop_no_handlers [OF none] first list.case)
  with run have "focusFirstInvalidInput css errs h form = Inr (Focused e)"
    by simp
  with e(1,2) named show ?thesis
    by (intro exI [of _ e] conjI)
qed

text \<open>
  C4, as stated, fails: the loop goes through the inputs in the order of the document,
  not of the errors. With the errors of \<open>b\<close> and \<open>a\<close> produced in that order, and the
  visible input \<open>a\<close> standing before the visible input \<open>b\<close> in the form, the code focuses
  \<open>a\<close>, where the order of the errors gives \<open>b\<close>.
\<close>

theorem focus_order_counterexample:
  "focusFirstInvalidInput attribute_list_engine [(''b'', ''Required''), (''a'', ''Required'')]
      no_handlers
      \<lparr>descendants = [an_input 0 ''a'' ''text'', an_input 1 ''b'' ''text''], formData = []\<rparr>
     = Inr (Focused (an_input 0 ''a'' ''text''))
   \<and> spec_focus no_handlers [an_input 0 ''a'' ''text'', an_input 1 ''b'' ''text'']
        (Object_keys [(''b'', ''Required''), (''a'', ''Required'')])
     = Focused (an_input 1 ''b'' ''text'')"
  by (simp add: focusFirstInvalidInput_conforming [OF attribute_list_engine_conforming]
      Object_keys_def selector_safe_def unsafe_chars_def named_input_def an_input_def
      input_name_def has_def no_handlers_def)

text \<open>
  C4, amended. Let there be at least one field error, and let no field name with an
  error hold a double quote, a backslash, a line break or a null character, so that
  the browser reads the selector built from the names as CSS says. Then the algorithm
  goes through the \<open>input\<close> elements of the form whose \<open>name\<close> attribute is a name with
  an error, in document order. At the first of them that has custom focus handlers for
  its name or is not a hidden input it stops: it invokes all handlers of that name if
  there are any, and focuses the input otherwise; hidden inputs without handlers are
  skipped, and when nothing is left no focus change occurs. In particular, for the
  errors of \<open>a\<close> and \<open>b\<close>, with every input \<open>a\<close> hidden, a visible input \<open>b\<close> and no
  handlers for either, the focus lands on a visible input \<open>b\<close>.
\<close>

theorem focus_follows_document_order:
  assumes "conforming css" and "errs \<noteq> []" and "list_all selector_safe (Object_keys errs)"
  shows "focusFirstInvalidInput css errs h form =
           Inr (case dropWhile (\<lambda>e. \<not> has h (input_name e) \<and> input_type e = ''hidden'')
                       (filter (\<lambda>e. list_ex (\<lambda>k. named_input k e) (Object_keys errs))
                          (descendants form)) of
                  [] \<Rightarrow> NoFocusChange
                | e # rest \<Rightarrow>
                    if has h (input_name e) then HandlersInvoked (getAll h (input_name e))
                    else Focused e)
       \<and> (Object_keys errs = [a, b] \<and> \<not> has h a \<and> \<not> has h b
            \<and> (\<forall>e \<in> set (descendants form). named_input a e \<longrightarrow> input_type e = ''hidden'')
            \<and> (\<exists>e \<in> set (descendants form). named_input b e \<and> input_type e \<noteq> ''hidden'')
          \<longrightarrow> (\<exists>e. focusFirstInvalidInput css errs h form = Inr (Focused e)
                   \<and> e \<in> set (descendants form) \<and> named_input b e
                   \<and> input_type e \<noteq> ''hidden''))"
proof (intro conjI impI)
  show "focusFirstInvalidInput css errs h form =
           Inr (case dropWhile (\<lambda>e. \<not> has h (input_name e) \<and> input_type e = ''hidden'')
                       (filter (\<lambda>e. list_ex (\<lambda>k. named_input k e) (Object_keys errs))
                          (descendants form)) of
                  [] \<Rightarrow> NoFocusChange
                | e # rest \<Rightarrow>
                    if has h (input_name e) then HandlersInvoked (getAll h (input_name e))
                    else Focused e)"
    by (simp only: focusFirstInvalidInput_conforming [OF assms] focus_loop_dropWhile)
next
  assume example: "Object_keys errs = [a, b] \<and> \<not> has h a \<and> \<not> has h b
            \<and> (\<forall>e \<in> set (descendants form). named_input a e \<longrightarrow> input_type e = ''hidden'')
            \<and> (\<exists>e \<in> set (descendants form). named_input b e \<and> input_type e \<noteq> ''hidden'')"
  then have keys: "Object_keys errs = [a, b]"
    and no_a: "\<not> has h a" and no_b: "\<not> has h b"
    and a_hidden: "\<forall>e \<in> set (descendants form). named_input a e \<longrightarrow> input_type e = ''hidden''"
    and b_visible: "\<exists>e \<in> set (descendants form). named_input b e \<and> input_type e \<noteq> ''hidden''"
    by blast+
  show "\<exists>e. focusFirstInvalidInput css errs h form = Inr (Focused e)
                   \<and> e \<in> set (descendants form) \<and> named_input b e
                   \<and> input_type e \<noteq> ''hidden''"
    by (rule focus_lands_on_visible [OF assms(1,3) keys no_a no_b a_hidden b_visible])
qed

text \<open>
  The example of the claim: \<open>a\<close> is a hidden input, \<open>b\<close> a text input, in either order
  in the document; the errors are those of \<open>a\<close> and \<open>b\<close>. The focus goes to \<open>b\<close>. And
  an error under the empty name does not select the submit button, which has no
  \<open>name\<close> attribute: nothing is focused.
\<close>

theorem focus_hidden_then_visible_witness:
  "conforming attribute_list_engine
   \<and> list_all selector_safe (Object_keys [(''a'', ''Required''), (''b'', ''Required'')])
   \<and> focusFirstInvalidInput attribute_list_engine [(''a'', ''Required''), (''b'', ''Required'')]
        no_handlers
        \<lparr>descendants = [an_input 0 ''a'' ''hidden'', an_input 1 ''b'' ''text''], formData = []\<rparr>
     = Inr (Focused (an_input 1 ''b'' ''text''))
   \<and> focusFirstInvalidInput attribute_list_engine [(''a'', ''Required''), (''b'', ''Required'')]
        no_handlers
        \<lparr>descendants = [an_input 1 ''b'' ''text'', an_input 0 ''a'' ''hidden''], formData = []\<rparr>
     = Inr (Focused (an_input 1 ''b'' ''text''))
   \<and> focusFirstInvalidInput attribute_list_engine [('''', ''Invalid'')] no_handlers
        \<lparr>descendants = [submit_button], formData = []\<rparr>
     = Inr NoFocusChange"
proof -
  have some: "[(''a'', ''Required''), (''b'', ''Required'')] \<noteq> ([] :: FieldErrors)"
    "[('''', ''Invalid'')] \<noteq> ([] :: FieldErrors)"
    by simp_all
  have safe: "list_all selector_safe (Object_keys [(''a'', ''Required''), (''b'', ''Required'')])"
    "list_all selector_safe (Object_keys [('''', ''Invalid'')])"
    by (simp_all add: Object_keys_def selector_safe_def unsafe_chars_def)
  from focus_follows_document_order [OF attribute_list_engine_conforming some(1) safe(1),
      of no_handlers
      "\<lparr>descendants = [an_input 0 ''a'' ''hidden'', an_input 1 ''b'' ''text''], formData = []\<rparr>"
      "''a''" "''b''"]
    focus_follows_document_order [OF attribute_list_engine_conforming some(1) safe(1),
      of no_handlers
      "\<lparr>descendants = [an_input 1 ''b'' ''text'', an_input 0 ''a'' ''hidden''], formData = []\<rparr>"
      "''a''" "''b''"]
    focus_follows_document_order [OF attribute_list_engine_conforming some(2) safe(2),
      of no_handlers "\<lparr>descendants = [submit_button], formData = []\<rparr>" "''a''" "''b''"]
  show ?thesis
    using attribute_list_engine_conforming safe(1)
    by (simp add: Object_keys_def named_input_def an_input_def submit_button_def input_name_def
        has_def no_handlers_def)
qed

section \<open>Clearing and revalidating one field\<close>

lemma get_own_spread_with: "get_own (spread_with ps k v) k = Some v"
  by (induction ps) (auto simp add: get_own_def)

lemma omitted_key_gone: "k \<notin> set (Object_keys (filter (\<lambda>p. fst p \<noteq> k) ps))"
  by (auto simp add: Object_keys_def)

lemma setFieldErrors_prev:
  assumes "f (fieldErrors s) (nextRef s) = (fieldErrors s, nextRef s)"
  shows "setFieldErrors f s = s"
  using assms by (simp add: setFieldErrors_def Object_is_def)

lemma set_error_same:
  assumes "get_own (props (fieldErrors s)) k = Some e"
  shows "setFieldErrors (set_error k e) s = s"
  using assms by (intro setFieldErrors_prev) (simp add: set_error_def)

lemma remove_error_absent:
  assumes "\<not> js_in k (props (fieldErrors s))"
  shows "setFieldErrors (remove_error k) s = s"
  using assms by (intro setFieldErrors_prev) (simp add: remove_error_def)

lemma set_error_twice:
  "setFieldErrors (set_error k e) (setFieldErrors (set_error k e) s)
     = setFieldErrors (set_error k e) s"
  by (rule set_error_same) (simp add: setFieldErrors_def set_error_def get_own_spread_with)

lemma remove_error_twice:
  assumes "k \<notin> set Object_prototype_keys"
  shows "setFieldErrors (remove_error k) (setFieldErrors (remove_error k) s)
           = setFieldErrors (remove_error k) s"
  using assms
  by (intro remove_error_absent)
     (simp add: setFieldErrors_def remove_error_def omit_def js_in_def omitted_key_gone)

lemma clearError_always_new_object:
  assumes "ref (fieldErrors s) < nextRef s"
  shows "\<not> Object_is (fieldErrors (clearError k s)) (fieldErrors s)
       \<and> stateChanges (clearError k s) = Suc (stateChanges s)"
  using assms by (simp add: clearError_def setFieldErrors_def omit_def Object_is_def)

text \<open>
  C5 does not hold of the code: \<open>clearError\<close> hands the result of \<open>omit\<close> to the setter
  without looking whether the field has an error. On the store with no entry,
  \<open>clearError\<close> of \<open>firstName\<close> puts a new empty object in the place of the store's and
  counts as a state change, while \<open>validateField\<close> of the same, valid, field on the same
  state, which has the guard, changes nothing.
\<close>

theorem clearError_absent_key_new_reference:
  "clearError ''firstName'' fresh_state
     = fresh_state\<lparr>fieldErrors := Obj 3 [], nextRef := 4, stateChanges := 1\<rparr>
   \<and> ref (fieldErrors (clearError ''firstName'' fresh_state)) \<noteq> ref (fieldErrors fresh_state)
   \<and> validateField name_validator
        (Some (name_form [(''firstName'', ''Jane''), (''lastName'', ''Doe'')])) ''firstName''
        fresh_state
     = Inr fresh_state"
  by (simp add: clearError_def validateField_def setFieldErrors_def remove_error_def omit_def
      js_in_def Object_keys_def Object_prototype_keys_def Object_is_def fresh_state_def
      name_validator_def name_form_def getDataFromForm_def FormData_get_def truthy_def)

text \<open>
  C6, as stated, fails in two places. An empty error string equal to the store's entry
  is the same outcome, but \<open>if (error)\<close> takes it for no error and the entry is removed:
  the store is a new object. And for a field named as a member of \<open>Object.prototype\<close>,
  such as \<open>toString\<close>, with no error and no entry, \<open>fieldName in prev\<close> is true all
  the same, and the store is a new object at every call.
\<close>

theorem validateField_same_outcome_counterexample:
  "v_validateField \<lparr>v_validate = (\<lambda>fd. Success ()), v_validateField = (\<lambda>fd k. Some '''')\<rparr>
       (getDataFromForm (name_form [])) ''firstName''
     = get_own (props (Obj 0 [(''firstName'', '''')])) ''firstName''
   \<and> validateField \<lparr>v_validate = (\<lambda>fd. Success ()), v_validateField = (\<lambda>fd k. Some '''')\<rparr>
       (Some (name_form [])) ''firstName''
       (fresh_state\<lparr>fieldErrors := Obj 0 [(''firstName'', '''')]\<rparr>)
     = Inr (fresh_state\<lparr>fieldErrors := Obj 3 [], nextRef := 4, stateChanges := 1\<rparr>)
   \<and> v_validateField \<lparr>v_validate = (\<lambda>fd. Success ()), v_validateField = (\<lambda>fd k. None)\<rparr>
       (getDataFromForm (name_form [])) ''toString''
     = get_own (props (fieldErrors fresh_state)) ''toString''
   \<and> validateField \<lparr>v_validate = (\<lambda>fd. Success ()), v_validateField = (\<lambda>fd k. None)\<rparr>
       (Some (name_form [])) ''toString'' fresh_state
     = Inr (fresh_state\<lparr>fieldErrors := Obj 3 [], nextRef := 4, stateChanges := 1\<rparr>)"
  by (simp add: validateField_def setFieldErrors_def remove_error_def omit_def js_in_def
      get_own_def Object_keys_def Object_prototype_keys_def Object_is_def fresh_state_def)

text \<open>
  C6, amended. When \<open>validateField\<close> of a field finds a non-empty error string that is
  the store's entry of the field, or finds no error (none, or the empty string) while
  \<open>fieldName in fieldErrors\<close> is false (the store has no entry of the field, and the
  field is not named as a member of \<open>Object.prototype\<close>), the state after the call is
  the state before: the Field Error Store is the same object and no state change is
  counted. Hence, for a field not named as a member of \<open>Object.prototype\<close>, a call of
  \<open>validateField\<close> on the state that an earlier call with the same form data left
  changes nothing.
\<close>

theorem validateField_same_outcome_keeps_store:
  "(v_validateField validator (getDataFromForm el) fieldName = Some error \<and> error \<noteq> []
      \<and> get_own (props (fieldErrors s)) fieldName = Some error
     \<longrightarrow> validateField validator (Some el) fieldName s = Inr s)
   \<and> (\<not> truthy (v_validateField validator (getDataFromForm el) fieldName)
      \<and> fieldName \<notin> set (Object_keys (props (fieldErrors s)))
      \<and> fieldName \<notin> set Object_prototype_keys
     \<longrightarrow> validateField validator (Some el) fieldName s = Inr s)
   \<and> (fieldName \<notin> set Object_prototype_keys
      \<and> validateField validator formRef fieldName s = Inr s'
     \<longrightarrow> validateField validator formRef fieldName s' = Inr s')"
proof (intro conjI impI)
  assume "v_validateField validator (getDataFromForm el) fieldName = Some error \<and> error \<noteq> []
      \<and> get_own (props (fieldErrors s)) fieldName = Some error"
  then show "validateField validator (Some el) fieldName s = Inr s"
    by (simp add: validateField_def set_error_same)
next
  assume "\<not> truthy (v_validateField validator (getDataFromForm el) fieldName)
      \<and> fieldName \<notin> set (Object_keys (props (fieldErrors s)))
      \<and> fieldName \<notin> set Object_prototype_keys"
  then have "\<not> truthy (v_validateField validator (getDataFromForm el) fieldName)"
    and "\<not> js_in fieldName (props (fieldErrors s))"
    by (simp_all add: js_in_def)
  then show "validateField validator (Some el) fieldName s = Inr s"
    by (auto simp add: validateField_def truthy_def remove_error_absent split: option.splits)
next
  assume "fieldName \<notin> set Object_prototype_keys
      \<and> validateField validator formRef fieldName s = Inr s'"
  then show "validateField validator formRef fieldName s' = Inr s'"
    by (auto simp add: validateField_def set_error_twice remove_error_twice
        split: option.splits if_splits)
qed

text \<open>
  The required field, empty: on the state that holds its message nothing changes; on
  the new state the first call stores the message and the second changes nothing. The
  filled field on the new state: nothing changes.
\<close>

theorem validateField_twice_witness:
  "validateField name_validator (Some (name_form [(''firstName'', '''')])) ''firstName'' used_state
     = Inr used_state
   \<and> validateField name_validator (Some (name_form [(''firstName'', ''Jane'')])) ''firstName''
       fresh_state
     = Inr fresh_state
   \<and> validateField name_validator (Some (name_form [(''firstName'', '''')])) ''firstName''
       fresh_state
     = Inr (fresh_state\<lparr>fieldErrors := Obj 3 [(''firstName'', required_message)],
                        nextRef := 4, stateChanges := 1\<rparr>)
   \<and> validateField name_validator (Some (name_form [(''firstName'', '''')])) ''firstName''
       (fresh_state\<lparr>fieldErrors := Obj 3 [(''firstName'', required_message)],
                    nextRef := 4, stateChanges := 1\<rparr>)
     = Inr (fresh_state\<lparr>fieldErrors := Obj 3 [(''firstName'', required_message)],
                        nextRef := 4, stateChanges := 1\<rparr>)"
proof -
  have first:
    "validateField name_validator (Some (name_form [(''firstName'', '''')])) ''firstName''
       fresh_state
     = Inr (fresh_state\<lparr>fieldErrors := Obj 3 [(''firstName'', required_message)],
                        nextRef := 4, stateChanges := 1\<rparr>)"
    by (simp add: validateField_def setFieldErrors_def set_error_def get_own_def Object_is_def
        fresh_state_def name_validator_def name_form_def getDataFromForm_def FormData_get_def
        truthy_def required_message_def)
  from validateField_same_outcome_keeps_store
      [of name_validator "name_form [(''firstName'', '''')]" "''firstName''" required_message
          used_state "Some (name_form [(''firstName'', '''')])"
          "fresh_state\<lparr>fieldErrors := Obj 3 [(''firstName'', required_message)],
                       nextRef := 4, stateChanges := 1\<rparr>"]
    validateField_same_outcome_keeps_store
      [of name_validator "name_form [(''firstName'', ''Jane'')]" "''firstName''" required_message
          fresh_state "Some (name_form [(''firstName'', '''')])"
          "fresh_state\<lparr>fieldErrors := Obj 3 [(''firstName'', required_message)],
                       nextRef := 4, stateChanges := 1\<rparr>"]
    validateField_same_outcome_keeps_store
      [of name_validator "name_form [(''firstName'', '''')]" "''firstName''" required_message
          fresh_state "Some (name_form [(''firstName'', '''')])"
          "fresh_state\<lparr>fieldErrors := Obj 3 [(''firstName'', required_message)],
                       nextRef := 4, stateChanges := 1\<rparr>"]
  show ?thesis
    using first
    by (simp add: name_validator_def name_form_def getDataFromForm_def FormData_get_def
        truthy_def required_message_def used_state_def fresh_state_def get_own_def
        Object_keys_def Object_prototype_keys_def)
qed

section \<open>Resetting the form\<close>

text \<open>
  C8. The reset handler first gives the event to the caller's \<open>onReset\<close>, if there is
  one. When the event is not cancelled once \<open>onReset\<close> has returned, the Field Error
  Store and the Touched Field Store become empty objects and \<open>hasBeenSubmitted\<close>
  becomes false; when it is cancelled, the whole state is left as it is.
\<close>

theorem reset_clears_unless_cancelled:
  "snd (Form_onReset onReset s event) = (case onReset of None \<Rightarrow> event | Some h \<Rightarrow> h event)
   \<and> (\<not> defaultPrevented (snd (Form_onReset onReset s event))
        \<longrightarrow> props (fieldErrors (fst (Form_onReset onReset s event))) = []
           \<and> props (touchedFields (fst (Form_onReset onReset s event))) = []
           \<and> \<not> hasBeenSubmitted (fst (Form_onReset onReset s event)))
   \<and> (defaultPrevented (snd (Form_onReset onReset s event))
        \<longrightarrow> fst (Form_onReset onReset s event) = s)"
  by (simp add: Form_onReset_def Let_def setHasBeenSubmitted_def setTouchedFields_def
      setFieldErrors_def new_object_def)

text \<open>
  A form that was submitted with an error and touched: without \<open>onReset\<close> the reset
  empties it, with an \<open>onReset\<close> that calls \<open>preventDefault\<close> it stays as it is.
\<close>

theorem reset_witness:
  "\<not> defaultPrevented (snd (Form_onReset None used_state (event_on (name_form []))))
   \<and> props (fieldErrors (fst (Form_onReset None used_state (event_on (name_form []))))) = []
   \<and> props (touchedFields (fst (Form_onReset None used_state (event_on (name_form []))))) = []
   \<and> \<not> hasBeenSubmitted (fst (Form_onReset None used_state (event_on (name_form []))))
   \<and> defaultPrevented
        (snd (Form_onReset (Some preventDefault) used_state (event_on (name_form []))))
   \<and> fst (Form_onReset (Some preventDefault) used_state (event_on (name_form []))) = used_state"
  using reset_clears_unless_cancelled [of None used_state "event_on (name_form [])"]
    reset_clears_unless_cancelled [of "Some preventDefault" used_state "event_on (name_form [])"]
  by (simp add: event_on_def preventDefault_def)

section \<open>The completion of a submission\<close>

lemma submit_renders_fired:
  "map fst (submit_renders isPending rs) =
     map (\<lambda>(was, now). was \<and> \<not> now)
       (zip (isPending # map r_isSubmitting rs) (map r_isSubmitting rs))"
  by (induction rs arbitrary: isPending) (auto simp add: useSubmitComplete_def)

lemma submit_renders_reset:
  "map snd (submit_renders isPending rs) =
     map (\<lambda>(fired, r).
            if fired \<and> r_resetAfterSubmit r \<and> r_backendError r = None then r_formRef r
            else None)
       (zip (map fst (submit_renders isPending rs)) rs)"
  by (induction rs arbitrary: isPending)
     (auto simp add: useSubmitComplete_def submitComplete_callback_def)

text \<open>
  C7. Over the renders of a mounted form, the completion callback fires in exactly the
  renders that are idle while the render before was submitting: once for each change
  from submitting to idle, however many renders the submission lasted. In a render
  where it fires, \<open>reset()\<close> is called on the form element exactly when
  \<open>resetAfterSubmit\<close> is set and there is no backend error for this form; in a render
  where it does not fire, nothing is reset. (The callback runs in an effect, when
  \<open>formRef.current\<close> is the form element; were it \<open>null\<close>, nothing would be reset.)
\<close>

theorem submit_complete_once_per_falling_edge:
  "map fst (submit_renders False rs) =
     map (\<lambda>(was, now). was \<and> \<not> now)
       (zip (False # map r_isSubmitting rs) (map r_isSubmitting rs))
   \<and> map snd (submit_renders False rs) =
     map (\<lambda>(fired, r).
            if fired \<and> r_resetAfterSubmit r \<and> r_backendError r = None then r_formRef r
            else None)
       (zip (map fst (submit_renders False rs)) rs)"
  by (simp only: submit_renders_fired submit_renders_reset)

text \<open>
  Seven renders of a form with \<open>resetAfterSubmit\<close>: idle, three renders of a first
  submission, idle again, then a second submission that the server answers with an
  error for this form. The callback fires in the fifth and the seventh render, and the
  form is reset in the fifth only.
\<close>

theorem submit_complete_witness:
  "map fst (submit_renders False
      [\<lparr>r_isSubmitting = False, r_backendError = None, r_resetAfterSubmit = True,
         r_formRef = Some (name_form [])\<rparr>,
       \<lparr>r_isSubmitting = True, r_backendError = None, r_resetAfterSubmit = True,
         r_formRef = Some (name_form [])\<rparr>,
       \<lparr>r_isSubmitting = True, r_backendError = None, r_resetAfterSubmit = True,
         r_formRef = Some (name_form [])\<rparr>,
       \<lparr>r_isSubmitting = True, r_backendError = None, r_resetAfterSubmit = True,
         r_formRef = Some (name_form [])\<rparr>,
       \<lparr>r_isSubmitting = False, r_backendError = None, r_resetAfterSubmit = True,
         r_formRef = Some (name_form [])\<rparr>,
       \<lparr>r_isSubmitting = True, r_backendError = None, r_resetAfterSubmit = True,
         r_formRef = Some (name_form [])\<rparr>,
       \<lparr>r_isSubmitting = False, r_backendError = Some (error_payload None),
         r_resetAfterSubmit = True, r_formRef = Some (name_form [])\<rparr>])
     = [False, False, False, False, True, False, True]
   \<and> map snd (submit_renders False
      [\<lparr>r_isSubmitting = False, r_backendError = None, r_resetAfterSubmit = True,
         r_formRef = Some (name_form [])\<rparr>,
       \<lparr>r_isSubmitting = True, r_backendError = None, r_resetAfterSubmit = True,
         r_formRef = Some (name_form [])\<rparr>,
       \<lparr>r_isSubmitting = True, r_backendError = None, r_resetAfterSubmit = True,
         r_formRef = Some (name_form [])\<rparr>,
       \<lparr>r_isSubmitting = True, r_backendError = None, r_resetAfterSubmit = True,
         r_formRef = Some (name_form [])\<rparr>,
       \<lparr>r_isSubmitting = False, r_backendError = None, r_resetAfterSubmit = True,
         r_formRef = Some (name_form [])\<rparr>,
       \<lparr>r_isSubmitting = True, r_backendError = None, r_resetAfterSubmit = True,
         r_formRef = Some (name_form [])\<rparr>,
       \<lparr>r_isSubmitting = False, r_backendError = Some (error_payload None),
         r_resetAfterSubmit = True, r_formRef = Some (name_form [])\<rparr>])
     = [None, None, None, None, Some (name_form []), None, None]"
  using submit_complete_once_per_falling_edge
    [of "[\<lparr>r_isSubmitting = False, r_backendError = None, r_resetAfterSubmit = True,
         r_formRef = Some (name_form [])\<rparr>,
       \<lparr>r_isSubmitting = True, r_backendError = None, r_resetAfterSubmit = True,
         r_formRef = Some (name_form [])\<rparr>,
       \<lparr>r_isSubmitting = True, r_backendError = None, r_resetAfterSubmit = True,
         r_formRef = Some (name_form [])\<rparr>,
       \<lparr>r_isSubmitting = True, r_backendError = None, r_resetAfterSubmit = True,
         r_formRef = Some (name_form [])\<rparr>,
       \<lparr>r_isSubmitting = False, r_backendError = None, r_resetAfterSubmit = True,
         r_formRef = Some (name_form [])\<rparr>,
       \<lparr>r_isSubmitting = True, r_backendError = None, r_resetAfterSubmit = True,
         r_formRef = Some (name_form [])\<rparr>,
       \<lparr>r_isSubmitting = False, r_backendError = Some (error_payload None),
         r_resetAfterSubmit = True, r_formRef = Some (name_form [])\<rparr>]"]
  by simp

section \<open>The context value\<close>

lemma useMemo_contextValue_fresh:
  assumes "memo_ok cache"
  shows "\<exists>deps. useMemo_contextValue cache rv = Some (deps, contextValue deps)
               \<and> same_deps deps rv"
  using assms
  by (auto simp add: useMemo_contextValue_def memo_ok_def same_deps_def Object_is_def
      same_dep_def split: option.splits)

lemma memo_ok_useMemo:
  assumes "memo_ok cache"
  shows "memo_ok (useMemo_contextValue cache rv)"
  using assms by (auto simp add: useMemo_contextValue_def memo_ok_def split: option.splits)

lemma memo_ok_renders:
  assumes "memo_ok cache"
  shows "memo_ok (renders cache rvs)"
  using assms by (induction rvs arbitrary: cache) (auto simp add: memo_ok_useMemo)

lemma renders_snoc: "renders cache (rvs @ [rv]) = useMemo_contextValue (renders cache rvs) rv"
  by (induction rvs arbitrary: cache) auto

text \<open>
  C9. After any number of renders, with whatever state each of them sees, the context
  value the form exposes has \<open>isValid\<close> true exactly when its \<open>fieldErrors\<close> has no
  entry, and its \<open>fieldErrors\<close> is the object of the state of the last render: \<open>useMemo\<close>
  does not keep a value computed from another Field Error Store.
\<close>

theorem isValid_iff_no_field_errors:
  "\<exists>deps cv. renders None (rvs @ [rv]) = Some (deps, cv)
      \<and> cv_isValid cv = (props (cv_fieldErrors cv) = [])
      \<and> Object_is (cv_fieldErrors cv) (rv_fieldErrors rv)"
proof -
  have "memo_ok (renders None rvs)"
    by (rule memo_ok_renders) (simp add: memo_ok_def)
  from useMemo_contextValue_fresh [OF this, of rv] obtain deps where
    last: "renders None (rvs @ [rv]) = Some (deps, contextValue deps)"
    and same: "same_deps deps rv"
    by (auto simp add: renders_snoc)
  have "cv_isValid (contextValue deps) = (props (cv_fieldErrors (contextValue deps)) = [])"
    by (simp add: contextValue_def Object_keys_def)
  moreover have "Object_is (cv_fieldErrors (contextValue deps)) (rv_fieldErrors rv)"
    using same by (simp add: contextValue_def same_deps_def)
  ultimately show ?thesis
    using last by blast
qed

text \<open>
  Three renders: the new form, the same state again, and the state after a failed
  submission. The value exposed last is not valid and holds the one error.
\<close>

theorem isValid_witness:
  "\<exists>deps cv.
     renders None
       [\<lparr>rv_fieldErrors = Obj 1 [], rv_action = None, rv_defaultsToUse = None,
          rv_isSubmitting = False, rv_touchedFields = Obj 2 [], rv_hasBeenSubmitted = False,
          rv_validator = 0\<rparr>,
        \<lparr>rv_fieldErrors = Obj 1 [], rv_action = None, rv_defaultsToUse = None,
          rv_isSubmitting = False, rv_touchedFields = Obj 2 [], rv_hasBeenSubmitted = False,
          rv_validator = 0\<rparr>,
        \<lparr>rv_fieldErrors = Obj 3 [(''firstName'', required_message)], rv_action = None,
          rv_defaultsToUse = None, rv_isSubmitting = False, rv_touchedFields = Obj 2 [],
          rv_hasBeenSubmitted = True, rv_validator = 0\<rparr>]
       = Some (deps, cv)
     \<and> \<not> cv_isValid cv
     \<and> cv_fieldErrors cv = Obj 3 [(''firstName'', required_message)]"
  using isValid_iff_no_field_errors
    [of "[\<lparr>rv_fieldErrors = Obj 1 [], rv_action = None, rv_defaultsToUse = None,
          rv_isSubmitting = False, rv_touchedFields = Obj 2 [], rv_hasBeenSubmitted = False,
          rv_validator = 0\<rparr>,
        \<lparr>rv_fieldErrors = Obj 1 [], rv_action = None, rv_defaultsToUse = None,
          rv_isSubmitting = False, rv_touchedFields = Obj 2 [], rv_hasBeenSubmitted = False,
          rv_validator = 0\<rparr>]"
        "\<lparr>rv_fieldErrors = Obj 3 [(''firstName'', required_message)], rv_action = None,
          rv_defaultsToUse = None, rv_isSubmitting = False, rv_touchedFields = Obj 2 [],
          rv_hasBeenSubmitted = True, rv_validator = 0\<rparr>"]
  by (simp add: useMemo_contextValue_def same_deps_def same_dep_def Object_is_def
      contextValue_def Object_keys_def)

end
